theory Spec2Isabelle
  imports Complex_Main
begin

section \<open>Data model of script.js\<close>

text \<open>
  JavaScript numbers are modelled as rationals. Every number the scoring code computes
  (integer points times a multiplier from 1, 1.5, 2, 3) is a multiple of one half of small
  magnitude, so it is represented exactly by a double and the rational model is exact
  there. The spawn coordinates use the decimal literal 0.8, which a double only
  approximates; there the rational model is the ideal arithmetic the source denotes. The score is an
  integer kept in a double; the model keeps it as an integer, which is the double's value
  as long as its magnitude is at most \<open>2 ^ 53\<close>.
\<close>

type_synonym number = rat

text \<open>
  A result of \<open>Math.random()\<close>: a number in the half-open interval from 0 (inclusive) to
  1 (exclusive).
\<close>

typedef random = "{r :: rat. 0 \<le> r \<and> r < 1}"
  morphisms random_value Abs_random
  by (rule exI [of _ 0]) simp

definition sample :: "rat \<Rightarrow> random" where
  "sample r = Abs_random (if 0 \<le> r \<and> r < 1 then r else 0)"

text \<open>The entries of \<open>targetTypes\<close>, in the order \<open>Object.keys\<close> lists them.\<close>

datatype targetKey = STANDARD | BONUS | PENALTY

record targetType =
  points :: int
  color :: nat
  sound :: string

fun targetTypes :: "targetKey \<Rightarrow> targetType" where
  "targetTypes STANDARD = \<lparr>points = 10, color = 0xffa500, sound = ''hit_standard''\<rparr>"
| "targetTypes BONUS = \<lparr>points = 25, color = 0x00ff00, sound = ''hit_bonus''\<rparr>"
| "targetTypes PENALTY = \<lparr>points = -15, color = 0xff0000, sound = ''hit_penalty''\<rparr>"

definition typeKeys :: "targetKey list" where
  "typeKeys = [STANDARD, BONUS, PENALTY]"

text \<open>
  \<open>COMBO_THRESHOLDS\<close>: an object with integer-like keys, which \<open>for ... in\<close> visits in
  ascending numeric order.
\<close>

definition COMBO_THRESHOLDS :: "(nat \<times> number) list" where
  "COMBO_THRESHOLDS = [(1, 1), (5, 3 / 2), (10, 2), (15, 3)]"

record vec3 =
  vx :: number
  vy :: number
  vz :: number

record quat =
  qx :: number
  qy :: number
  qz :: number
  qw :: number

text \<open>
  The object a \<open>targetData\<close> literal builds. Its fields are never assigned after
  \<open>spawnTarget\<close>, so the object is a value; \<open>mesh\<close> and \<open>body\<close> are references into the
  stores of mesh and body objects below.
\<close>

record targetData =
  mesh :: nat
  body :: nat
  type :: targetType
  id :: nat

text \<open>A \<open>THREE.Mesh\<close>, with the fields the game reads or writes.\<close>

record Mesh =
  uuid :: nat
  mesh_position :: vec3
  mesh_quaternion :: quat
  geometry :: "nat option"
  material :: "nat option"
  userData_targetData :: "targetData option"

text \<open>A \<open>CANNON.Body\<close>.\<close>

record Body =
  body_position :: vec3
  body_quaternion :: quat
  velocity :: vec3
  angularVelocity :: vec3

text \<open>A GPU-side resource on which \<open>dispose()\<close> has been called.\<close>

datatype gpu = Geometry nat | Material nat

text \<open>
  The module's variables, together with the objects they reach.

  Modelled from the spec: three.js and cannon.js are external collaborators that are not under
  src/. The scene is its membership (\<open>scene.add\<close>, \<open>scene.remove\<close>), the physics world its
  registered bodies (\<open>addBody\<close>, \<open>removeBody\<close>), the GPU the sequence of \<open>dispose()\<close> calls
  it received, and the console the sequence of \<open>console.warn\<close> messages. Mesh and body
  objects live in stores indexed by reference; \<open>nextObject\<close> is the next unused reference, so
  that every \<open>new\<close> yields a fresh object. three.js gives every mesh a \<open>uuid\<close> that no other
  object has; the model uses the mesh's reference for it. Audio playback, DOM text and
  \<open>console.log\<close> do not feed back into the game and are left out.
\<close>

record state =
  score :: int
  consecutiveHits :: nat
  comboMultiplier :: number
  targets :: "targetData list"
  maxTargets :: nat
  targetSpawnInterval :: number
  timeSinceLastSpawn :: number
  assetsLoaded :: bool
  meshes :: "nat \<Rightarrow> Mesh"
  bodies :: "nat \<Rightarrow> Body"
  scene :: "nat set"
  physicsWorld :: "nat set"
  disposed :: "gpu list"
  warnings :: "string list"
  nextObject :: nat

section \<open>Combo and scoring\<close>

text \<open>
  \<open>Math.round\<close>: the integer nearest to the argument, and of two equally near integers the
  one towards plus infinity.
\<close>

definition Math_round :: "number \<Rightarrow> int" where
  "Math_round v = \<lfloor>v + 1 / 2\<rfloor>"

text \<open>The body of the \<open>for ... in\<close> loop of \<open>updateCombo\<close>, over the remaining keys.\<close>

fun updateCombo_loop :: "(nat \<times> number) list \<Rightarrow> nat \<Rightarrow> number \<Rightarrow> number" where
  "updateCombo_loop [] hitsNow newMultiplier = newMultiplier"
| "updateCombo_loop ((hits, v) # rest) hitsNow newMultiplier =
     updateCombo_loop rest hitsNow (if hitsNow \<ge> hits then v else newMultiplier)"

definition updateCombo :: "state \<Rightarrow> state" where
  "updateCombo s =
     s\<lparr>comboMultiplier :=
         updateCombo_loop COMBO_THRESHOLDS (consecutiveHits s)
           (the (map_of COMBO_THRESHOLDS 1))\<rparr>"

definition processHit :: "targetData \<Rightarrow> vec3 \<Rightarrow> state \<Rightarrow> state" where
  "processHit targetData hitPosition s =
     (let s1 = updateCombo (s\<lparr>consecutiveHits := consecutiveHits s + 1\<rparr>);
          pointsEarned = Math_round (of_int (points (type targetData)) * comboMultiplier s1)
      in s1\<lparr>score := score s1 + pointsEarned\<rparr>)"

definition processMiss :: "state \<Rightarrow> state" where
  "processMiss s = updateCombo (s\<lparr>consecutiveHits := 0\<rparr>)"

definition startGameLogic :: "state \<Rightarrow> state" where
  "startGameLogic s = updateCombo (s\<lparr>score := 0, consecutiveHits := 0\<rparr>)"

text \<open>A sequence of calls of \<open>processHit\<close> and \<open>processMiss\<close>.\<close>

datatype shot = Hit targetData vec3 | Miss

fun processShots :: "shot list \<Rightarrow> state \<Rightarrow> state" where
  "processShots [] s = s"
| "processShots (Hit targetData hitPosition # rest) s =
     processShots rest (processHit targetData hitPosition s)"
| "processShots (Miss # rest) s = processShots rest (processMiss s)"

subsection \<open>The scoring rules in the words of the specification\<close>

text \<open>The threshold table of the specification, by ranges of the streak.\<close>

definition spec_multiplier :: "nat \<Rightarrow> number" where
  "spec_multiplier n =
     (if n \<le> 4 then 1 else if n \<le> 9 then 3 / 2 else if n \<le> 14 then 2 else 3)"

text \<open>Rounding to the nearest integer with ties away from zero.\<close>

definition round_half_away_from_zero :: "number \<Rightarrow> int" where
  "round_half_away_from_zero v = (if v < 0 then - \<lfloor>- v + 1 / 2\<rfloor> else \<lfloor>v + 1 / 2\<rfloor>)"

text \<open>
  Rounding to the nearest integer with ties towards plus infinity, told from the rounding
  above: the two differ at a negative number exactly halfway between two integers, which
  ties away from zero take down and ties towards plus infinity take up.
\<close>

definition round_half_up :: "number \<Rightarrow> int" where
  "round_half_up v =
     (if v < 0 \<and> of_int (round_half_away_from_zero v) = v - 1 / 2
      then round_half_away_from_zero v + 1
      else round_half_away_from_zero v)"

text \<open>
  The sum over the hits of the rounded product of base points and the multiplier of the
  streak counted after the hit; a miss restarts the streak. The first argument is the
  rounding, the second the streak so far.
\<close>

fun sum_of_hits :: "(number \<Rightarrow> int) \<Rightarrow> nat \<Rightarrow> shot list \<Rightarrow> int" where
  "sum_of_hits rnd streak [] = 0"
| "sum_of_hits rnd streak (Miss # rest) = sum_of_hits rnd 0 rest"
| "sum_of_hits rnd streak (Hit targetData hitPosition # rest) =
     rnd (of_int (points (type targetData)) * spec_multiplier (Suc streak))
       + sum_of_hits rnd (Suc streak) rest"

text \<open>The sum with the rounding the specification documents: ties away from zero.\<close>

definition spec_score :: "shot list \<Rightarrow> int" where
  "spec_score shots = sum_of_hits round_half_away_from_zero 0 shots"

text \<open>
  The score is kept in a double, which holds every integer of magnitude up to \<open>2 ^ 53\<close>
  exactly; an addition whose exact result is in that range is exact. The integer \<open>score\<close> of
  the model is the source's score as long as every running total stays in that range, which
  is what this predicate says of a sequence of shots: the first argument is the rounding,
  the second the streak so far, the third the total so far.
\<close>

fun totals_exact :: "(number \<Rightarrow> int) \<Rightarrow> nat \<Rightarrow> int \<Rightarrow> shot list \<Rightarrow> bool" where
  "totals_exact rnd streak acc [] = True"
| "totals_exact rnd streak acc (Miss # rest) = totals_exact rnd 0 acc rest"
| "totals_exact rnd streak acc (Hit targetData hitPosition # rest) =
     (let acc' = acc + rnd (of_int (points (type targetData)) * spec_multiplier (Suc streak))
      in \<bar>acc'\<bar> \<le> 2 ^ 53 \<and> totals_exact rnd (Suc streak) acc' rest)"

text \<open>Five PENALTY targets hit in a row.\<close>

definition five_penalties :: "shot list" where
  "five_penalties =
     [Hit \<lparr>mesh = 0, body = 0, type = targetTypes PENALTY, id = 0\<rparr> \<lparr>vx = 0, vy = 0, vz = 0\<rparr>,
      Hit \<lparr>mesh = 1, body = 1, type = targetTypes PENALTY, id = 1\<rparr> \<lparr>vx = 0, vy = 0, vz = 0\<rparr>,
      Hit \<lparr>mesh = 2, body = 2, type = targetTypes PENALTY, id = 2\<rparr> \<lparr>vx = 0, vy = 0, vz = 0\<rparr>,
      Hit \<lparr>mesh = 3, body = 3, type = targetTypes PENALTY, id = 3\<rparr> \<lparr>vx = 0, vy = 0, vz = 0\<rparr>,
      Hit \<lparr>mesh = 4, body = 4, type = targetTypes PENALTY, id = 4\<rparr> \<lparr>vx = 0, vy = 0, vz = 0\<rparr>]"

section \<open>Target lifecycle\<close>

text \<open>The three coordinate formulas of \<open>spawnTarget\<close>, each of one \<open>Math.random()\<close>.\<close>

definition spawnX :: "random \<Rightarrow> number" where
  "spawnX r = (random_value r - 1 / 2) * 20"

definition spawnY :: "random \<Rightarrow> number" where
  "spawnY r = random_value r * 5 + 2"

definition spawnZ :: "random \<Rightarrow> number" where
  "spawnZ r = (random_value r - 4 / 5) * 15"

text \<open>The results of the calls of \<open>Math.random()\<close> in one \<open>spawnTarget\<close>, in call order.\<close>

record spawnRandoms =
  rType :: random
  rX :: random
  rY :: random
  rZ :: random
  rVelX :: random
  rVelY :: random
  rVelZ :: random
  rAngX :: random
  rAngY :: random
  rAngZ :: random

definition identity_quaternion :: quat where
  "identity_quaternion = \<lparr>qx = 0, qy = 0, qz = 0, qw = 1\<rparr>"

definition spawnTarget :: "spawnRandoms \<Rightarrow> state \<Rightarrow> state" where
  "spawnTarget rnd s =
     (let randomTypeKey = typeKeys ! nat \<lfloor>random_value (rType rnd) * of_nat (length typeKeys)\<rfloor>;
          ty = targetTypes randomTypeKey;
          ref = nextObject s;
          spawnPos = \<lparr>vx = spawnX (rX rnd), vy = spawnY (rY rnd), vz = spawnZ (rZ rnd)\<rparr>;
          targetData = \<lparr>mesh = ref, body = ref, type = ty, id = ref\<rparr>;
          meshObject =
            \<lparr>uuid = ref, mesh_position = spawnPos, mesh_quaternion = identity_quaternion,
             geometry = Some ref, material = Some ref,
             userData_targetData = Some targetData\<rparr>;
          bodyObject =
            \<lparr>body_position = spawnPos, body_quaternion = identity_quaternion,
             velocity =
               \<lparr>vx = (random_value (rVelX rnd) - 1 / 2) * 2,
                vy = random_value (rVelY rnd) * 3,
                vz = (random_value (rVelZ rnd) - 1 / 2) * 2\<rparr>,
             angularVelocity =
               \<lparr>vx = (random_value (rAngX rnd) - 1 / 2) * 3,
                vy = (random_value (rAngY rnd) - 1 / 2) * 3,
                vz = (random_value (rAngZ rnd) - 1 / 2) * 3\<rparr>\<rparr>
      in s\<lparr>meshes := (meshes s)(ref := meshObject),
           bodies := (bodies s)(ref := bodyObject),
           scene := insert ref (scene s),
           physicsWorld := insert ref (physicsWorld s),
           targets := targets s @ [targetData],
           nextObject := Suc ref\<rparr>)"

text \<open>\<open>Array.prototype.splice(index, 1)\<close> for an index that is not negative.\<close>

definition splice1 :: "nat \<Rightarrow> 'a list \<Rightarrow> 'a list" where
  "splice1 index xs = take index xs @ drop (Suc index) xs"

definition dispose_of :: "Mesh \<Rightarrow> gpu list" where
  "dispose_of m =
     (case geometry m of None \<Rightarrow> [] | Some g \<Rightarrow> [Geometry g])
       @ (case material m of None \<Rightarrow> [] | Some g \<Rightarrow> [Material g])"

definition removeTarget :: "targetData \<Rightarrow> nat \<Rightarrow> state \<Rightarrow> state" where
  "removeTarget targetData index s =
     s\<lparr>scene := scene s - {mesh targetData},
       disposed := disposed s @ dispose_of (meshes s (mesh targetData)),
       physicsWorld := physicsWorld s - {body targetData},
       targets := splice1 index (targets s)\<rparr>"

text \<open>The callback that \<open>update\<close> hands to \<open>targets.forEach\<close>.\<close>

definition syncTarget :: "targetData \<Rightarrow> nat \<Rightarrow> state \<Rightarrow> state" where
  "syncTarget targetData index s =
     (let b = bodies s (body targetData);
          m = meshes s (mesh targetData);
          s1 = s\<lparr>meshes := (meshes s)(mesh targetData :=
                 m\<lparr>mesh_position := body_position b,
                   mesh_quaternion := body_quaternion b\<rparr>)\<rparr>
      in if vy (body_position b) < - 10 then removeTarget targetData index s1 else s1)"

text \<open>
  \<open>Array.prototype.forEach\<close>: the length is read once, before the first call; the indices
  below it are visited in ascending order; an index that the array no longer has when its
  turn comes is passed over. The first argument counts the indices still to visit, the
  second is the index \<open>k\<close> of the current one.
\<close>

primrec targets_forEach :: "nat \<Rightarrow> nat \<Rightarrow> state \<Rightarrow> state" where
  "targets_forEach 0 k s = s"
| "targets_forEach (Suc remaining) k s =
     targets_forEach remaining (Suc k)
       (if k < length (targets s) then syncTarget (targets s ! k) k s else s)"

text \<open>
  Modelled from the spec: \<open>physicsWorld.step\<close> belongs to cannon.js, which is not under src/.
  The engine may move every body registered with the world and no other; \<open>physics\<close> is
  what it computes from the bodies of the moment.
\<close>

definition physicsWorld_step :: "((nat \<Rightarrow> Body) \<Rightarrow> nat \<Rightarrow> Body) \<Rightarrow> state \<Rightarrow> state" where
  "physicsWorld_step physics s =
     s\<lparr>bodies := (\<lambda>ref. if ref \<in> physicsWorld s then physics (bodies s) ref else bodies s ref)\<rparr>"

text \<open>What one call of \<open>update\<close> takes from outside the module.\<close>

record frameInput =
  deltaTime :: number
  physics :: "(nat \<Rightarrow> Body) \<Rightarrow> nat \<Rightarrow> Body"
  spawnRnd :: spawnRandoms
  rInterval :: random

definition update :: "frameInput \<Rightarrow> state \<Rightarrow> state" where
  "update inp s =
     (if \<not> assetsLoaded s then s
      else
        let s1 = physicsWorld_step (physics inp) s;
            s2 = s1\<lparr>timeSinceLastSpawn := timeSinceLastSpawn s1 + deltaTime inp\<rparr>;
            s3 = (if timeSinceLastSpawn s2 > targetSpawnInterval s2
                    \<and> length (targets s2) < maxTargets s2
                  then (spawnTarget (spawnRnd inp) s2)
                         \<lparr>timeSinceLastSpawn := 0,
                          targetSpawnInterval := 4 / 5 + random_value (rInterval inp) * (7 / 10)\<rparr>
                  else s2)
        in targets_forEach (length (targets s3)) 0 s3)"

section \<open>Hit resolution\<close>

record intersection =
  object :: nat
  point :: vec3

text \<open>
  Modelled from the spec: \<open>Raycaster.intersectObjects(objects, false)\<close> belongs to three.js,
  which is not under src/. It returns, nearest first, intersections whose objects are among
  the objects passed and not their descendants. What the ray meets is given from outside as
  \<open>picks\<close>: positions in the list passed, each with its point of impact.
\<close>

definition intersectObjects :: "(nat \<times> vec3) list \<Rightarrow> nat list \<Rightarrow> intersection list" where
  "intersectObjects picks objects =
     map (\<lambda>p. \<lparr>object = objects ! fst p, point = snd p\<rparr>)
       (filter (\<lambda>p. fst p < length objects) picks)"

text \<open>\<open>Array.prototype.findIndex\<close>: the first index that satisfies the predicate, else -1.\<close>

fun findIndex_from :: "('a \<Rightarrow> bool) \<Rightarrow> 'a list \<Rightarrow> int \<Rightarrow> int" where
  "findIndex_from P [] k = - 1"
| "findIndex_from P (x # xs) k = (if P x then k else findIndex_from P xs (k + 1))"

definition findIndex :: "('a \<Rightarrow> bool) \<Rightarrow> 'a list \<Rightarrow> int" where
  "findIndex P xs = findIndex_from P xs 0"

definition console_warn :: "string \<Rightarrow> state \<Rightarrow> state" where
  "console_warn msg s = s\<lparr>warnings := warnings s @ [msg]\<rparr>"

text \<open>The part of \<open>shoot\<close> after the ray cast, from \<open>if (intersects.length > 0)\<close> on.\<close>

definition resolve :: "intersection list \<Rightarrow> state \<Rightarrow> state" where
  "resolve intersects s =
     (case intersects of
        [] \<Rightarrow> processMiss s
      | first # _ \<Rightarrow>
          (let hitObject = object first; hitPoint = point first
           in case userData_targetData (meshes s hitObject) of
                Some targetData \<Rightarrow>
                  (let s1 = processHit targetData hitPoint s;
                       targetIndex = findIndex (\<lambda>t. id t = id targetData) (targets s1)
                   in if targetIndex > - 1 then removeTarget targetData (nat targetIndex) s1
                      else console_warn ''Hit target not found in tracking array?'' s1)
              | None \<Rightarrow> processMiss (console_warn ''Hit mesh did not have targetData!'' s)))"

definition shoot :: "(nat \<times> vec3) list \<Rightarrow> state \<Rightarrow> state" where
  "shoot picks s =
     (if \<not> assetsLoaded s then s
      else resolve (intersectObjects picks (map mesh (targets s))) s)"

section \<open>Sessions\<close>

text \<open>The module's variables as their declarations initialise them, before any callback ran.\<close>

definition default_mesh :: Mesh where
  "default_mesh =
     \<lparr>uuid = 0, mesh_position = \<lparr>vx = 0, vy = 0, vz = 0\<rparr>,
      mesh_quaternion = identity_quaternion, geometry = None, material = None,
      userData_targetData = None\<rparr>"

definition default_body :: Body where
  "default_body =
     \<lparr>body_position = \<lparr>vx = 0, vy = 0, vz = 0\<rparr>, body_quaternion = identity_quaternion,
      velocity = \<lparr>vx = 0, vy = 0, vz = 0\<rparr>, angularVelocity = \<lparr>vx = 0, vy = 0, vz = 0\<rparr>\<rparr>"

definition initial :: state where
  "initial =
     \<lparr>score = 0, consecutiveHits = 0, comboMultiplier = 1, targets = [], maxTargets = 15,
      targetSpawnInterval = 1, timeSinceLastSpawn = 0, assetsLoaded = False,
      meshes = (\<lambda>ref. default_mesh), bodies = (\<lambda>ref. default_body),
      scene = {}, physicsWorld = {}, disposed = [], warnings = [], nextObject = 0\<rparr>"

text \<open>
  The callbacks through which the browser enters the module: the loading manager's
  \<open>onLoad\<close>, an animation frame (\<open>animate\<close> calls \<open>update\<close>), and a \<open>pointerdown\<close> event
  (\<open>shoot\<close>). JavaScript runs each to its end before the next starts.
\<close>

datatype event = OnLoad | AnimationFrame frameInput | PointerDown "(nat \<times> vec3) list"

fun handle :: "event \<Rightarrow> state \<Rightarrow> state" where
  "handle OnLoad s = startGameLogic (s\<lparr>assetsLoaded := True\<rparr>)"
| "handle (AnimationFrame inp) s = update inp s"
| "handle (PointerDown picks) s = shoot picks s"

fun run :: "event list \<Rightarrow> state \<Rightarrow> state" where
  "run [] s = s"
| "run (e # es) s = run es (handle e s)"

section \<open>Invariants of the lifecycle\<close>

fun gpu_ref :: "gpu \<Rightarrow> nat" where
  "gpu_ref (Geometry r) = r"
| "gpu_ref (Material r) = r"

text \<open>
  What \<open>spawnTarget\<close> establishes for the target it tracks: its mesh points back to it, the
  mesh's uuid is its id, the mesh has a geometry and a material of its own, and no two
  tracked targets share a mesh.
\<close>

definition linked :: "state \<Rightarrow> bool" where
  "linked s \<longleftrightarrow>
     (\<forall>t \<in> set (targets s).
        userData_targetData (meshes s (mesh t)) = Some t
        \<and> uuid (meshes s (mesh t)) = id t
        \<and> geometry (meshes s (mesh t)) = Some (mesh t)
        \<and> material (meshes s (mesh t)) = Some (mesh t)
        \<and> id t = mesh t \<and> body t = mesh t \<and> mesh t < nextObject s)
     \<and> distinct (map mesh (targets s))"

text \<open>The scene holds the meshes of the tracked targets and the world their bodies.\<close>

definition registered :: "state \<Rightarrow> bool" where
  "registered s \<longleftrightarrow>
     scene s = mesh ` set (targets s) \<and> physicsWorld s = body ` set (targets s)"

text \<open>No resource was disposed twice, and no tracked target has a disposed resource.\<close>

definition torn_down_once :: "state \<Rightarrow> bool" where
  "torn_down_once s \<longleftrightarrow>
     distinct (disposed s)
     \<and> (\<forall>g \<in> set (disposed s). gpu_ref g < nextObject s \<and> gpu_ref g \<notin> mesh ` set (targets s))"

definition consistent :: "state \<Rightarrow> bool" where
  "consistent s \<longleftrightarrow> linked s \<and> registered s \<and> torn_down_once s"

section \<open>Sample inputs\<close>

definition origin :: vec3 where
  "origin = \<lparr>vx = 0, vy = 0, vz = 0\<rparr>"

definition rnd0 :: spawnRandoms where
  "rnd0 = \<lparr>rType = sample 0, rX = sample (1 / 2), rY = sample (1 / 2), rZ = sample (7 / 8),
     rVelX = sample (1 / 2), rVelY = sample 0, rVelZ = sample (1 / 2),
     rAngX = sample (1 / 2), rAngY = sample (1 / 2), rAngZ = sample (1 / 2)\<rparr>"

text \<open>A frame two seconds after the last, in which the physics engine moves nothing.\<close>

definition frame_spawn :: frameInput where
  "frame_spawn = \<lparr>deltaTime = 2, physics = (\<lambda>bs. bs), spawnRnd = rnd0, rInterval = sample 0\<rparr>"

text \<open>A frame right after the last, in which every body has fallen to height -11.\<close>

definition frame_fall :: frameInput where
  "frame_fall = \<lparr>deltaTime = 0,
      physics = (\<lambda>bs ref. (bs ref)\<lparr>body_position := \<lparr>vx = 0, vy = - 11, vz = 0\<rparr>\<rparr>),
      spawnRnd = rnd0, rInterval = sample 0\<rparr>"

text \<open>The session after loading and two frames that each spawned a target.\<close>

definition two_targets :: state where
  "two_targets = run [OnLoad, AnimationFrame frame_spawn, AnimationFrame frame_spawn] initial"

section \<open>Theorems\<close>

subsection \<open>Combo multiplier and score\<close>

lemma comboMultiplier_updateCombo:
  "comboMultiplier (updateCombo s) = spec_multiplier (consecutiveHits s)"
  by (simp add: updateCombo_def COMBO_THRESHOLDS_def spec_multiplier_def)

lemma updateCombo_fields [simp]:
  "score (updateCombo s) = score s"
  "consecutiveHits (updateCombo s) = consecutiveHits s"
  "targets (updateCombo s) = targets s"
  "maxTargets (updateCombo s) = maxTargets s"
  "assetsLoaded (updateCombo s) = assetsLoaded s"
  "meshes (updateCombo s) = meshes s"
  "bodies (updateCombo s) = bodies s"
  "scene (updateCombo s) = scene s"
  "physicsWorld (updateCombo s) = physicsWorld s"
  "disposed (updateCombo s) = disposed s"
  "warnings (updateCombo s) = warnings s"
  "nextObject (updateCombo s) = nextObject s"
  by (simp_all add: updateCombo_def)

lemma processHit_score:
  "score (processHit td hp s) =
     score s + Math_round (of_int (points (type td)) * spec_multiplier (Suc (consecutiveHits s)))"
  by (simp add: processHit_def Let_def comboMultiplier_updateCombo)

lemma processHit_fields [simp]:
  "consecutiveHits (processHit td hp s) = Suc (consecutiveHits s)"
  "targets (processHit td hp s) = targets s"
  "maxTargets (processHit td hp s) = maxTargets s"
  "assetsLoaded (processHit td hp s) = assetsLoaded s"
  "meshes (processHit td hp s) = meshes s"
  "bodies (processHit td hp s) = bodies s"
  "scene (processHit td hp s) = scene s"
  "physicsWorld (processHit td hp s) = physicsWorld s"
  "disposed (processHit td hp s) = disposed s"
  "warnings (processHit td hp s) = warnings s"
  "nextObject (processHit td hp s) = nextObject s"
  by (simp_all add: processHit_def Let_def)

lemma processMiss_fields [simp]:
  "score (processMiss s) = score s"
  "consecutiveHits (processMiss s) = 0"
  "targets (processMiss s) = targets s"
  "maxTargets (processMiss s) = maxTargets s"
  "assetsLoaded (processMiss s) = assetsLoaded s"
  "meshes (processMiss s) = meshes s"
  "bodies (processMiss s) = bodies s"
  "scene (processMiss s) = scene s"
  "physicsWorld (processMiss s) = physicsWorld s"
  "disposed (processMiss s) = disposed s"
  "warnings (processMiss s) = warnings s"
  "nextObject (processMiss s) = nextObject s"
  by (simp_all add: processMiss_def)

text \<open>
  Claim C1. For every value of \<open>consecutiveHits\<close>, the multiplier that \<open>updateCombo\<close> stores
  is the one of the threshold table: 1 for 0 to 4 hits, 1.5 for 5 to 9, 2 for 10 to 14 and 3
  from 15 on; in particular it is 1 at 0 hits.
\<close>

theorem updateCombo_threshold_table:
  "comboMultiplier (updateCombo s) =
     (if consecutiveHits s \<le> 4 then 1
      else if consecutiveHits s \<le> 9 then 3 / 2
      else if consecutiveHits s \<le> 14 then 2 else 3)
   \<and> comboMultiplier (updateCombo (s\<lparr>consecutiveHits := 0\<rparr>)) = 1"
  by (simp add: updateCombo_def COMBO_THRESHOLDS_def)

theorem updateCombo_threshold_table_witness:
  "comboMultiplier (updateCombo (initial\<lparr>consecutiveHits := 7\<rparr>)) = 3 / 2
   \<and> comboMultiplier (updateCombo (initial\<lparr>consecutiveHits := 0\<rparr>)) = 1"
  using updateCombo_threshold_table [of "initial\<lparr>consecutiveHits := 7\<rparr>"]
  by simp

subsection \<open>Rounding of the points of a hit\<close>

lemma Math_round_nearest:
  "v - 1 / 2 < of_int (Math_round v) \<and> of_int (Math_round v) \<le> v + 1 / 2"
  unfolding Math_round_def by linarith

lemma Math_round_half_away:
  "Math_round v =
     (if v < 0 \<and> of_int (Math_round v) = v + 1 / 2 then round_half_away_from_zero v + 1
      else round_half_away_from_zero v)"
proof (cases "v < 0")
  case False
  then show ?thesis by (simp add: Math_round_def round_half_away_from_zero_def)
next
  case neg: True
  show ?thesis
  proof (cases "of_int (Math_round v) = v + 1 / 2")
    case True
    then have "- v + 1 / 2 = of_int (1 - Math_round v)" by simp
    then have "\<lfloor>- v + 1 / 2\<rfloor> = 1 - Math_round v" by (metis floor_of_int)
    with neg True show ?thesis by (simp add: round_half_away_from_zero_def)
  next
    case False
    have "\<lfloor>- v + 1 / 2\<rfloor> = - Math_round v"
    proof (rule floor_unique)
      show "of_int (- Math_round v) \<le> - v + 1 / 2"
        using Math_round_nearest [of v] by simp
      show "- v + 1 / 2 < of_int (- Math_round v) + 1"
        using Math_round_nearest [of v] False by simp
    qed
    with neg False show ?thesis by (simp add: round_half_away_from_zero_def)
  qed
qed

lemma Math_round_half_up: "Math_round v = round_half_up v"
proof (cases "v < 0 \<and> of_int (Math_round v) = v + 1 / 2")
  case True
  then have m: "Math_round v = round_half_away_from_zero v + 1"
    using Math_round_half_away [of v] by simp
  then have "of_int (round_half_away_from_zero v) = v - 1 / 2"
    using True by simp
  with True m show ?thesis by (simp add: round_half_up_def)
next
  case False
  then have m: "Math_round v = round_half_away_from_zero v"
    using Math_round_half_away [of v] by auto
  have "of_int (round_half_away_from_zero v) \<noteq> v - 1 / 2"
    using Math_round_nearest [of v] m by simp
  with m show ?thesis by (simp add: round_half_up_def)
qed

subsection \<open>The score as a sum over the hits\<close>

lemma processShots_score:
  "score (processShots shots s) = score s + sum_of_hits round_half_up (consecutiveHits s) shots"
proof (induction shots arbitrary: s)
  case Nil
  show ?case by simp
next
  case (Cons a shots)
  show ?case
  proof (cases a)
    case (Hit td hp)
    then show ?thesis by (simp add: Cons.IH processHit_score Math_round_half_up)
  next
    case Miss
    then show ?thesis by (simp add: Cons.IH)
  qed
qed

lemma round_half_away_from_zero_values:
  "round_half_away_from_zero (- 15) = - 15" "round_half_away_from_zero (- (45 / 2)) = - 23"
  "round_half_away_from_zero 10 = 10" "round_half_away_from_zero 15 = 15"
  unfolding round_half_away_from_zero_def by simp_all linarith+

lemma round_half_up_values:
  "round_half_up (- 15) = - 15" "round_half_up (- (45 / 2)) = - 22"
  "round_half_up 10 = 10" "round_half_up 15 = 15"
  unfolding Math_round_half_up [symmetric] Math_round_def by simp_all linarith+

text \<open>
  Claim C2, as stated, fails with the rounding the specification documents (ties away from
  zero): from a fresh session, five PENALTY targets hit in a row leave the score at -82,
  four times -15 and then \<open>Math.round(-22.5)\<close>, which is -22, while the sum of the
  specification is -83.
\<close>

theorem five_penalties_counterexample:
  "score (processShots five_penalties (startGameLogic initial)) \<noteq> spec_score five_penalties
   \<and> score (processShots five_penalties (startGameLogic initial)) = - 82
   \<and> spec_score five_penalties = - 83"
proof -
  have "score (processShots five_penalties (startGameLogic initial))
          = sum_of_hits round_half_up 0 five_penalties"
    by (simp add: processShots_score startGameLogic_def initial_def)
  also have "\<dots> = - 82"
    by (simp add: five_penalties_def spec_multiplier_def round_half_up_values)
  finally have code: "score (processShots five_penalties (startGameLogic initial)) = - 82" .
  have spec: "spec_score five_penalties = - 83"
    by (simp add: five_penalties_def spec_score_def spec_multiplier_def
        round_half_away_from_zero_values)
  from code spec show ?thesis by simp
qed

text \<open>
  Claim C2, amended. From a fresh session, after any sequence of hits and misses whose running
  totals stay within the integers a double holds exactly, the score is the sum, over the
  hits, of the target's base points times the multiplier of the streak counted after that hit
  (so the first hit of a streak counts as streak 1), rounded to the nearest integer with ties
  towards plus infinity, a miss putting the streak back to 0 for the hits that follow.
\<close>

theorem score_is_sum_of_hits:
  "totals_exact round_half_up 0 0 shots \<Longrightarrow>
   score (processShots shots (startGameLogic s)) = sum_of_hits round_half_up 0 shots"
  by (simp add: processShots_score startGameLogic_def)

theorem score_is_sum_of_hits_witness:
  "totals_exact round_half_up 0 0
      [Hit \<lparr>mesh = 0, body = 0, type = targetTypes STANDARD, id = 0\<rparr> \<lparr>vx = 0, vy = 0, vz = 0\<rparr>,
       Hit \<lparr>mesh = 1, body = 1, type = targetTypes STANDARD, id = 1\<rparr> \<lparr>vx = 0, vy = 0, vz = 0\<rparr>,
       Hit \<lparr>mesh = 2, body = 2, type = targetTypes STANDARD, id = 2\<rparr> \<lparr>vx = 0, vy = 0, vz = 0\<rparr>,
       Hit \<lparr>mesh = 3, body = 3, type = targetTypes STANDARD, id = 3\<rparr> \<lparr>vx = 0, vy = 0, vz = 0\<rparr>,
       Hit \<lparr>mesh = 4, body = 4, type = targetTypes STANDARD, id = 4\<rparr> \<lparr>vx = 0, vy = 0, vz = 0\<rparr>,
       Miss,
       Hit \<lparr>mesh = 5, body = 5, type = targetTypes STANDARD, id = 5\<rparr> \<lparr>vx = 0, vy = 0, vz = 0\<rparr>]
   \<and> score (processShots
      [Hit \<lparr>mesh = 0, body = 0, type = targetTypes STANDARD, id = 0\<rparr> \<lparr>vx = 0, vy = 0, vz = 0\<rparr>,
       Hit \<lparr>mesh = 1, body = 1, type = targetTypes STANDARD, id = 1\<rparr> \<lparr>vx = 0, vy = 0, vz = 0\<rparr>,
       Hit \<lparr>mesh = 2, body = 2, type = targetTypes STANDARD, id = 2\<rparr> \<lparr>vx = 0, vy = 0, vz = 0\<rparr>,
       Hit \<lparr>mesh = 3, body = 3, type = targetTypes STANDARD, id = 3\<rparr> \<lparr>vx = 0, vy = 0, vz = 0\<rparr>,
       Hit \<lparr>mesh = 4, body = 4, type = targetTypes STANDARD, id = 4\<rparr> \<lparr>vx = 0, vy = 0, vz = 0\<rparr>,
       Miss,
       Hit \<lparr>mesh = 5, body = 5, type = targetTypes STANDARD, id = 5\<rparr> \<lparr>vx = 0, vy = 0, vz = 0\<rparr>]
      (startGameLogic initial)) = 65"
proof -
  let ?shots =
     "[Hit \<lparr>mesh = 0, body = 0, type = targetTypes STANDARD, id = 0\<rparr> \<lparr>vx = 0, vy = 0, vz = 0\<rparr>,
       Hit \<lparr>mesh = 1, body = 1, type = targetTypes STANDARD, id = 1\<rparr> \<lparr>vx = 0, vy = 0, vz = 0\<rparr>,
       Hit \<lparr>mesh = 2, body = 2, type = targetTypes STANDARD, id = 2\<rparr> \<lparr>vx = 0, vy = 0, vz = 0\<rparr>,
       Hit \<lparr>mesh = 3, body = 3, type = targetTypes STANDARD, id = 3\<rparr> \<lparr>vx = 0, vy = 0, vz = 0\<rparr>,
       Hit \<lparr>mesh = 4, body = 4, type = targetTypes STANDARD, id = 4\<rparr> \<lparr>vx = 0, vy = 0, vz = 0\<rparr>,
       Miss,
       Hit \<lparr>mesh = 5, body = 5, type = targetTypes STANDARD, id = 5\<rparr> \<lparr>vx = 0, vy = 0, vz = 0\<rparr>]"
  have safe: "totals_exact round_half_up 0 0 ?shots"
    by (simp add: spec_multiplier_def round_half_up_values Let_def)
  have "sum_of_hits round_half_up 0 ?shots = 65"
    by (simp add: spec_multiplier_def round_half_up_values)
  with score_is_sum_of_hits [OF safe, of initial] safe show ?thesis by simp
qed

subsection \<open>The points of a hit\<close>

text \<open>
  Claim C3, as stated, fails: a PENALTY target (-15 points) hit as the fifth of a streak, at
  multiplier 1.5, earns \<open>Math.round(-22.5)\<close>, which is -22, while rounding -22.5 with ties
  away from zero gives -23.
\<close>

theorem penalty_tie_counterexample:
  "score (processHit \<lparr>mesh = 0, body = 0, type = targetTypes PENALTY, id = 0\<rparr>
       \<lparr>vx = 0, vy = 0, vz = 0\<rparr> (initial\<lparr>consecutiveHits := 4\<rparr>))
       - score (initial\<lparr>consecutiveHits := 4\<rparr>)
     \<noteq> round_half_away_from_zero (of_int (points (targetTypes PENALTY))
         * comboMultiplier (processHit \<lparr>mesh = 0, body = 0, type = targetTypes PENALTY, id = 0\<rparr>
             \<lparr>vx = 0, vy = 0, vz = 0\<rparr> (initial\<lparr>consecutiveHits := 4\<rparr>)))
   \<and> comboMultiplier (processHit \<lparr>mesh = 0, body = 0, type = targetTypes PENALTY, id = 0\<rparr>
       \<lparr>vx = 0, vy = 0, vz = 0\<rparr> (initial\<lparr>consecutiveHits := 4\<rparr>)) = 3 / 2
   \<and> score (processHit \<lparr>mesh = 0, body = 0, type = targetTypes PENALTY, id = 0\<rparr>
       \<lparr>vx = 0, vy = 0, vz = 0\<rparr> (initial\<lparr>consecutiveHits := 4\<rparr>))
       - score (initial\<lparr>consecutiveHits := 4\<rparr>) = - 22
   \<and> round_half_away_from_zero (of_int (points (targetTypes PENALTY)) * (3 / 2)) = - 23"
  by (simp add: processHit_def Let_def updateCombo_def COMBO_THRESHOLDS_def initial_def
      Math_round_def round_half_away_from_zero_def)

text \<open>
  Claim C3, amended. For every target type and every streak, the points a hit earns are the
  product of the type's points and the multiplier of the threshold table, rounded to the
  nearest integer with ties towards plus infinity. That is rounding with ties away from zero
  except where the product is negative and lies exactly between two integers, where the
  points are one more.
\<close>

theorem processHit_points_rounding:
  "let v = of_int (points (type td))
             * comboMultiplier (updateCombo (s\<lparr>consecutiveHits := consecutiveHits s + 1\<rparr>));
       pointsEarned = score (processHit td hp s) - score s
   in v - 1 / 2 < of_int pointsEarned \<and> of_int pointsEarned \<le> v + 1 / 2
      \<and> pointsEarned =
          (if v < 0 \<and> of_int pointsEarned = v + 1 / 2 then round_half_away_from_zero v + 1
           else round_half_away_from_zero v)"
proof -
  define v where "v = of_int (points (type td)) * spec_multiplier (Suc (consecutiveHits s))"
  have e: "score (processHit td hp s) - score s = Math_round v"
    by (simp add: processHit_score v_def)
  have c: "comboMultiplier (updateCombo (s\<lparr>consecutiveHits := consecutiveHits s + 1\<rparr>))
             = spec_multiplier (Suc (consecutiveHits s))"
    by (simp add: comboMultiplier_updateCombo)
  show ?thesis
    unfolding Let_def c e v_def [symmetric]
    using Math_round_nearest [of v] Math_round_half_away [of v] by blast
qed

theorem processHit_points_rounding_witness:
  "score (processHit \<lparr>mesh = 0, body = 0, type = targetTypes BONUS, id = 0\<rparr>
            \<lparr>vx = 0, vy = 0, vz = 0\<rparr> (initial\<lparr>consecutiveHits := 4\<rparr>)) = 38"
  using processHit_points_rounding
    [of "\<lparr>mesh = 0, body = 0, type = targetTypes BONUS, id = 0\<rparr>"
        "initial\<lparr>consecutiveHits := 4\<rparr>" "\<lparr>vx = 0, vy = 0, vz = 0\<rparr>"]
  by (simp add: Let_def initial_def updateCombo_def COMBO_THRESHOLDS_def processHit_def
      Math_round_def)

subsection \<open>Invariants are kept by every operation\<close>

lemma length_splice1: "length (splice1 k xs) = (if k < length xs then length xs - 1 else length xs)"
  by (auto simp: splice1_def)

lemma set_splice1: "set (splice1 k xs) \<subseteq> set xs"
  unfolding splice1_def by (auto dest: in_set_takeD in_set_dropD)

lemma splice1_distinct_map:
  assumes "distinct (map f xs)" and "k < length xs"
  shows "distinct (map f (splice1 k xs))"
    and "f (xs ! k) \<notin> f ` set (splice1 k xs)"
    and "f ` set (splice1 k xs) = f ` set xs - {f (xs ! k)}"
proof -
  have xs: "xs = take k xs @ xs ! k # drop (Suc k) xs"
    using assms(2) by (rule id_take_nth_drop)
  have d: "distinct (map f (take k xs @ xs ! k # drop (Suc k) xs))"
    using assms(1) xs by simp
  from d show "distinct (map f (splice1 k xs))"
    by (auto simp: splice1_def)
  from d show n: "f (xs ! k) \<notin> f ` set (splice1 k xs)"
    by (auto simp: splice1_def)
  have "set xs = insert (xs ! k) (set (splice1 k xs))"
    by (subst xs) (auto simp: splice1_def)
  then show "f ` set (splice1 k xs) = f ` set xs - {f (xs ! k)}"
    using n by auto
qed

lemma removeTarget_fields [simp]:
  "targets (removeTarget td k s) = splice1 k (targets s)"
  "scene (removeTarget td k s) = scene s - {mesh td}"
  "physicsWorld (removeTarget td k s) = physicsWorld s - {body td}"
  "disposed (removeTarget td k s) = disposed s @ dispose_of (meshes s (mesh td))"
  "meshes (removeTarget td k s) = meshes s"
  "bodies (removeTarget td k s) = bodies s"
  "nextObject (removeTarget td k s) = nextObject s"
  "maxTargets (removeTarget td k s) = maxTargets s"
  "warnings (removeTarget td k s) = warnings s"
  "assetsLoaded (removeTarget td k s) = assetsLoaded s"
  "score (removeTarget td k s) = score s"
  "consecutiveHits (removeTarget td k s) = consecutiveHits s"
  by (simp_all add: removeTarget_def)

lemma removeTarget_linked:
  assumes "linked s" and "k < length (targets s)"
  shows "linked (removeTarget td k s)"
proof -
  have "set (splice1 k (targets s)) \<subseteq> set (targets s)" by (rule set_splice1)
  moreover have "distinct (map mesh (splice1 k (targets s)))"
    using assms by (simp add: linked_def splice1_distinct_map(1))
  ultimately show ?thesis
    using assms(1) unfolding linked_def removeTarget_fields by blast
qed

lemma removeTarget_registered:
  assumes "linked s" and "registered s" and "k < length (targets s)"
  shows "registered (removeTarget (targets s ! k) k s)"
proof -
  have dm: "distinct (map mesh (targets s))" using assms(1) by (simp add: linked_def)
  have eq: "map body (targets s) = map mesh (targets s)"
    using assms(1) by (simp add: linked_def)
  have db: "distinct (map body (targets s))" unfolding eq by (rule dm)
  show ?thesis
    using assms(2) splice1_distinct_map(3) [OF dm assms(3)] splice1_distinct_map(3) [OF db assms(3)]
    by (simp add: registered_def)
qed

lemma removeTarget_torn_down_once:
  assumes "linked s" and "torn_down_once s" and "k < length (targets s)"
  shows "torn_down_once (removeTarget (targets s ! k) k s)"
proof -
  let ?td = "targets s ! k"
  have mem: "?td \<in> set (targets s)" using assms(3) by simp
  have dm: "distinct (map mesh (targets s))" using assms(1) by (simp add: linked_def)
  have disp: "dispose_of (meshes s (mesh ?td)) = [Geometry (mesh ?td), Material (mesh ?td)]"
    using assms(1) mem by (simp add: linked_def dispose_of_def)
  have lt: "mesh ?td < nextObject s" using assms(1) mem by (simp add: linked_def)
  have fresh: "\<forall>g \<in> set (disposed s). gpu_ref g \<noteq> mesh ?td"
    using assms(2) mem unfolding torn_down_once_def by (metis imageI)
  have gone: "mesh ?td \<notin> mesh ` set (splice1 k (targets s))"
    by (rule splice1_distinct_map(2) [OF dm assms(3)])
  have sub: "mesh ` set (splice1 k (targets s)) \<subseteq> mesh ` set (targets s)"
    using set_splice1 [of k "targets s"] by blast
  have d: "distinct (disposed s @ [Geometry (mesh ?td), Material (mesh ?td)])"
    using assms(2) fresh unfolding torn_down_once_def by auto
  have "\<forall>g \<in> set (disposed s @ [Geometry (mesh ?td), Material (mesh ?td)]).
          gpu_ref g < nextObject s \<and> gpu_ref g \<notin> mesh ` set (splice1 k (targets s))"
    using assms(2) lt gone sub unfolding torn_down_once_def by auto
  with d show ?thesis
    unfolding torn_down_once_def by (simp add: disp)
qed

lemma removeTarget_consistent:
  "consistent s \<Longrightarrow> k < length (targets s) \<Longrightarrow> consistent (removeTarget (targets s ! k) k s)"
  unfolding consistent_def
  by (simp add: removeTarget_linked removeTarget_registered removeTarget_torn_down_once)

lemma syncTarget_meshes_only:
  "linked s \<Longrightarrow> linked (s\<lparr>meshes := (meshes s)(r := (meshes s r)\<lparr>mesh_position := p, mesh_quaternion := q\<rparr>)\<rparr>)"
  unfolding linked_def by auto

lemma registered_meshes_update [simp]: "registered (s\<lparr>meshes := ms\<rparr>) = registered s"
  by (simp add: registered_def)

lemma torn_down_once_meshes_update [simp]: "torn_down_once (s\<lparr>meshes := ms\<rparr>) = torn_down_once s"
  by (simp add: torn_down_once_def)

lemma consistent_sync:
  "consistent s \<Longrightarrow>
   consistent (s\<lparr>meshes := (meshes s)(r := (meshes s r)\<lparr>mesh_position := p, mesh_quaternion := q\<rparr>)\<rparr>)"
  unfolding consistent_def by (simp add: syncTarget_meshes_only)

lemma syncTarget_consistent:
  assumes "consistent s" and "k < length (targets s)"
  shows "consistent (syncTarget (targets s ! k) k s)"
proof -
  let ?td = "targets s ! k"
  let ?b = "bodies s (body ?td)"
  let ?s1 = "s\<lparr>meshes := (meshes s)(mesh ?td := (meshes s (mesh ?td))
                \<lparr>mesh_position := body_position ?b, mesh_quaternion := body_quaternion ?b\<rparr>)\<rparr>"
  have c1: "consistent ?s1" using assms(1) by (rule consistent_sync)
  have t1: "targets ?s1 = targets s" by simp
  have "consistent (removeTarget (targets ?s1 ! k) k ?s1)"
    using c1 assms(2) by (intro removeTarget_consistent) simp_all
  then have "consistent (removeTarget ?td k ?s1)" by simp
  with c1 show ?thesis by (simp add: syncTarget_def Let_def)
qed

lemma targets_forEach_consistent:
  "consistent s \<Longrightarrow> consistent (targets_forEach n k s)"
proof (induction n arbitrary: k s)
  case 0
  then show ?case by simp
next
  case (Suc n)
  show ?case
  proof (cases "k < length (targets s)")
    case True
    then have "consistent (syncTarget (targets s ! k) k s)"
      using Suc.prems by (simp add: syncTarget_consistent)
    then show ?thesis using True by (simp add: Suc.IH)
  next
    case False
    then show ?thesis using Suc.prems by (simp add: Suc.IH)
  qed
qed

lemma spawnTarget_fields [simp]:
  "targets (spawnTarget rnd s) =
     targets s @ [\<lparr>mesh = nextObject s, body = nextObject s,
       type = targetTypes (typeKeys ! nat \<lfloor>random_value (rType rnd) * of_nat (length typeKeys)\<rfloor>),
       id = nextObject s\<rparr>]"
  "scene (spawnTarget rnd s) = insert (nextObject s) (scene s)"
  "physicsWorld (spawnTarget rnd s) = insert (nextObject s) (physicsWorld s)"
  "disposed (spawnTarget rnd s) = disposed s"
  "nextObject (spawnTarget rnd s) = Suc (nextObject s)"
  "maxTargets (spawnTarget rnd s) = maxTargets s"
  "warnings (spawnTarget rnd s) = warnings s"
  "assetsLoaded (spawnTarget rnd s) = assetsLoaded s"
  "score (spawnTarget rnd s) = score s"
  "consecutiveHits (spawnTarget rnd s) = consecutiveHits s"
  by (simp_all add: spawnTarget_def Let_def)

lemma spawnTarget_meshes:
  "meshes (spawnTarget rnd s) r =
     (if r = nextObject s
      then \<lparr>uuid = nextObject s,
            mesh_position = \<lparr>vx = spawnX (rX rnd), vy = spawnY (rY rnd), vz = spawnZ (rZ rnd)\<rparr>,
            mesh_quaternion = identity_quaternion,
            geometry = Some (nextObject s), material = Some (nextObject s),
            userData_targetData = Some (last (targets (spawnTarget rnd s)))\<rparr>
      else meshes s r)"
  by (simp add: spawnTarget_def Let_def)

lemma spawnTarget_linked:
  assumes "linked s"
  shows "linked (spawnTarget rnd s)"
proof -
  have old: "\<forall>t \<in> set (targets s). mesh t \<noteq> nextObject s"
    using assms unfolding linked_def by fastforce
  show ?thesis
    using assms old unfolding linked_def
    by (auto simp: spawnTarget_meshes less_Suc_eq)
qed

lemma spawnTarget_registered:
  "registered s \<Longrightarrow> registered (spawnTarget rnd s)"
  by (simp add: registered_def)

lemma spawnTarget_torn_down_once:
  assumes "linked s" and "torn_down_once s"
  shows "torn_down_once (spawnTarget rnd s)"
  using assms(2) unfolding torn_down_once_def
  by (auto simp: less_Suc_eq)

lemma spawnTarget_consistent:
  "consistent s \<Longrightarrow> consistent (spawnTarget rnd s)"
  unfolding consistent_def
  by (simp add: spawnTarget_linked spawnTarget_registered spawnTarget_torn_down_once)

lemma consistent_irrelevant [simp]:
  "consistent (s\<lparr>bodies := bs\<rparr>) = consistent s"
  "consistent (s\<lparr>timeSinceLastSpawn := a\<rparr>) = consistent s"
  "consistent (s\<lparr>targetSpawnInterval := a\<rparr>) = consistent s"
  "consistent (s\<lparr>score := i\<rparr>) = consistent s"
  "consistent (s\<lparr>consecutiveHits := n\<rparr>) = consistent s"
  "consistent (s\<lparr>comboMultiplier := a\<rparr>) = consistent s"
  "consistent (s\<lparr>assetsLoaded := b\<rparr>) = consistent s"
  "consistent (s\<lparr>warnings := w\<rparr>) = consistent s"
  by (simp_all add: consistent_def linked_def registered_def torn_down_once_def)

lemma update_consistent:
  "consistent s \<Longrightarrow> consistent (update inp s)"
  by (simp add: update_def Let_def physicsWorld_step_def targets_forEach_consistent
      spawnTarget_consistent)

lemma intersectObjects_object:
  "x \<in> set (intersectObjects picks objs) \<Longrightarrow> object x \<in> set objs"
  by (auto simp: intersectObjects_def)

lemma findIndex_from_none:
  "\<forall>x \<in> set xs. \<not> P x \<Longrightarrow> findIndex_from P xs k = - 1"
  by (induction xs arbitrary: k) simp_all

lemma findIndex_from_some:
  "\<exists>x \<in> set xs. P x \<Longrightarrow>
   \<exists>j < length xs. findIndex_from P xs k = k + int j \<and> P (xs ! j)"
proof (induction xs arbitrary: k)
  case Nil
  then show ?case by simp
next
  case (Cons a xs)
  show ?case
  proof (cases "P a")
    case True
    then show ?thesis by (intro exI [of _ 0]) simp
  next
    case False
    with Cons.prems have "\<exists>x \<in> set xs. P x" by simp
    from Cons.IH [OF this, of "k + 1"]
    obtain j where "j < length xs" "findIndex_from P xs (k + 1) = k + 1 + int j" "P (xs ! j)"
      by blast
    with False show ?thesis by (intro exI [of _ "Suc j"]) simp
  qed
qed

lemma findIndex_found:
  "\<exists>x \<in> set xs. P x \<Longrightarrow>
   findIndex P xs > - 1 \<and> nat (findIndex P xs) < length xs \<and> P (xs ! nat (findIndex P xs))"
  using findIndex_from_some [of xs P 0] by (auto simp: findIndex_def)

lemma findIndex_not_found:
  "\<forall>x \<in> set xs. \<not> P x \<Longrightarrow> findIndex P xs = - 1"
  by (simp add: findIndex_def findIndex_from_none)

lemma findIndex_range: "findIndex P xs = - 1 \<or> (0 \<le> findIndex P xs \<and> nat (findIndex P xs) < length xs)"
proof (cases "\<exists>x \<in> set xs. P x")
  case True
  then show ?thesis using findIndex_found [of xs P] by simp
next
  case False
  then show ?thesis by (simp add: findIndex_not_found)
qed

lemma linked_same_mesh:
  "linked s \<Longrightarrow> t \<in> set (targets s) \<Longrightarrow> t' \<in> set (targets s) \<Longrightarrow> id t' = id t \<Longrightarrow> t' = t"
  unfolding linked_def by (metis option.inject)

lemma consistent_processHit [simp]: "consistent (processHit td hp s) = consistent s"
  by (simp add: processHit_def Let_def updateCombo_def)

lemma consistent_processMiss [simp]: "consistent (processMiss s) = consistent s"
  by (simp add: processMiss_def updateCombo_def)

lemma shoot_miss:
  "assetsLoaded s \<Longrightarrow> intersectObjects picks (map mesh (targets s)) = [] \<Longrightarrow>
   shoot picks s = processMiss s"
  by (simp add: shoot_def resolve_def)

lemma shoot_hit:
  assumes "consistent s" and "assetsLoaded s"
    and "intersectObjects picks (map mesh (targets s)) = first # rest"
  shows "\<exists>j < length (targets s). mesh (targets s ! j) = object first
           \<and> shoot picks s
               = removeTarget (targets s ! j) j (processHit (targets s ! j) (point first) s)"
proof -
  have l: "linked s" using assms(1) by (simp add: consistent_def)
  have "object first \<in> set (map mesh (targets s))"
    using intersectObjects_object [of first picks "map mesh (targets s)"] assms(3) by simp
  then obtain t where t: "t \<in> set (targets s)" "mesh t = object first" by auto
  have ud: "userData_targetData (meshes s (object first)) = Some t"
    using l t unfolding linked_def by auto
  let ?P = "\<lambda>t'. id t' = id t"
  let ?j = "nat (findIndex ?P (targets s))"
  have ex: "\<exists>x \<in> set (targets s). ?P x" using t(1) by auto
  have f: "findIndex ?P (targets s) > - 1" "?j < length (targets s)" "?P (targets s ! ?j)"
    using findIndex_found [OF ex] by simp_all
  have same: "targets s ! ?j = t"
    using linked_same_mesh [OF l t(1) _ f(3)] f(2) by simp
  have "shoot picks s = removeTarget t ?j (processHit t (point first) s)"
    using assms(2,3) ud f(1) by (simp add: shoot_def resolve_def Let_def)
  with same f(2) t(2) show ?thesis by auto
qed

lemma shoot_consistent:
  assumes "consistent s"
  shows "consistent (shoot picks s)"
proof (cases "assetsLoaded s")
  case False
  then show ?thesis using assms by (simp add: shoot_def)
next
  case True
  show ?thesis
  proof (cases "intersectObjects picks (map mesh (targets s))")
    case Nil
    then show ?thesis using assms True by (simp add: shoot_miss)
  next
    case (Cons first rest)
    from shoot_hit [OF assms True Cons]
    obtain j where j: "j < length (targets s)"
      "shoot picks s = removeTarget (targets s ! j) j (processHit (targets s ! j) (point first) s)"
      by blast
    let ?s1 = "processHit (targets s ! j) (point first) s"
    have "consistent (removeTarget (targets ?s1 ! j) j ?s1)"
      using assms j(1) by (intro removeTarget_consistent) simp_all
    then show ?thesis using j(2) by simp
  qed
qed

lemma shoot_warnings:
  assumes "consistent s"
  shows "warnings (shoot picks s) = warnings s"
proof (cases "assetsLoaded s")
  case False
  then show ?thesis by (simp add: shoot_def)
next
  case True
  show ?thesis
  proof (cases "intersectObjects picks (map mesh (targets s))")
    case Nil
    then show ?thesis using True by (simp add: shoot_miss)
  next
    case (Cons first rest)
    from shoot_hit [OF assms True Cons] show ?thesis by auto
  qed
qed

lemma syncTarget_warnings [simp]: "warnings (syncTarget td k s) = warnings s"
  by (simp add: syncTarget_def Let_def)

lemma targets_forEach_warnings [simp]: "warnings (targets_forEach n k s) = warnings s"
  by (induction n arbitrary: k s) simp_all

lemma update_warnings [simp]: "warnings (update inp s) = warnings s"
  by (simp add: update_def Let_def physicsWorld_step_def)

lemma handle_consistent: "consistent s \<Longrightarrow> consistent (handle e s)"
  by (cases e) (simp_all add: update_consistent shoot_consistent startGameLogic_def updateCombo_def)

lemma handle_warnings: "consistent s \<Longrightarrow> warnings (handle e s) = warnings s"
  by (cases e) (simp_all add: shoot_warnings startGameLogic_def)

lemma run_consistent: "consistent s \<Longrightarrow> consistent (run es s)"
  by (induction es arbitrary: s) (simp_all add: handle_consistent)

lemma run_warnings: "consistent s \<Longrightarrow> warnings (run es s) = warnings s"
  by (induction es arbitrary: s) (simp_all add: handle_consistent handle_warnings)

lemma consistent_initial: "consistent initial"
  by (simp add: consistent_def linked_def registered_def torn_down_once_def initial_def)

subsection \<open>Spawn positions\<close>

lemma random_value_bounds: "0 \<le> random_value r \<and> random_value r < 1"
  using random_value [of r] by simp

lemma random_value_sample:
  "random_value (sample q) = (if 0 \<le> q \<and> q < 1 then q else 0)"
  by (simp add: sample_def Abs_random_inverse)

lemma spawn_coordinate_ranges:
  "- 10 \<le> spawnX r \<and> spawnX r < 10 \<and> 2 \<le> spawnY r \<and> spawnY r < 7
   \<and> - 12 \<le> spawnZ r \<and> spawnZ r < 3"
  using random_value_bounds [of r] by (simp add: spawnX_def spawnY_def spawnZ_def)

lemmas evaluate =
  startGameLogic_def update_def Let_def initial_def physicsWorld_step_def frame_spawn_def
  frame_fall_def spawnTarget_def syncTarget_def random_value_sample rnd0_def spawnX_def
  spawnY_def spawnZ_def typeKeys_def numeral_2_eq_2 updateCombo_def COMBO_THRESHOLDS_def
  removeTarget_def splice1_def dispose_of_def

text \<open>
  Claim C4. The position \<open>spawnTarget\<close> computes should lie in the ranges the source's
  comments give: lateral in [-10, 10], height in [2, 7], depth in [-12, -3]. The lateral and
  the height formulas stay in their ranges (\<open>spawn_coordinate_ranges\<close>); the depth formula
  \<open>(Math.random() - 0.8) * 15\<close> reaches up to 3. With \<open>Math.random()\<close> returning 0.875 for
  the depth, the target is spawned at depth 1.125, on mesh and body alike.
\<close>

theorem spawnTarget_depth_out_of_range:
  "targets (spawnTarget rnd0 initial)
     = [\<lparr>mesh = 0, body = 0, type = targetTypes STANDARD, id = 0\<rparr>]
   \<and> mesh_position (meshes (spawnTarget rnd0 initial) 0) = \<lparr>vx = 0, vy = 9 / 2, vz = 9 / 8\<rparr>
   \<and> body_position (bodies (spawnTarget rnd0 initial) 0) = \<lparr>vx = 0, vy = 9 / 2, vz = 9 / 8\<rparr>
   \<and> \<not> spawnZ (rZ rnd0) \<le> - 3"
  by (simp add: spawnTarget_def Let_def initial_def rnd0_def spawnX_def spawnY_def spawnZ_def
      random_value_sample typeKeys_def)

subsection \<open>The per-frame pass over the targets\<close>

lemma two_targets_tracked:
  "targets two_targets
     = [\<lparr>mesh = 0, body = 0, type = targetTypes STANDARD, id = 0\<rparr>,
        \<lparr>mesh = 1, body = 1, type = targetTypes STANDARD, id = 1\<rparr>]"
  by (simp add: two_targets_def evaluate)

text \<open>
  Claim C5. One pass of \<open>targets.forEach\<close> in \<open>update\<close> should synchronise every tracked
  target and retire each one below height -10, whatever is removed on the way. With two
  tracked targets whose bodies have both fallen to height -11, the pass retires the first; the
  \<open>splice\<close> moves the second to index 0, and \<open>forEach\<close> goes on to index 1, which no longer
  exists. The second target stays tracked and in the scene, its mesh still at the height it
  was spawned at.
\<close>

theorem forEach_skips_after_removal:
  "targets (update frame_fall two_targets)
     = [\<lparr>mesh = 1, body = 1, type = targetTypes STANDARD, id = 1\<rparr>]
   \<and> vy (body_position (bodies (update frame_fall two_targets) 1)) = - 11
   \<and> vy (mesh_position (meshes (update frame_fall two_targets) 1)) = 9 / 2
   \<and> 1 \<in> scene (update frame_fall two_targets)"
  by (simp add: two_targets_def evaluate)

subsection \<open>The population cap\<close>

lemma syncTarget_cap:
  "length (targets (syncTarget td k s)) \<le> length (targets s)
   \<and> maxTargets (syncTarget td k s) = maxTargets s"
  by (simp add: syncTarget_def Let_def length_splice1)

lemma targets_forEach_cap:
  "length (targets (targets_forEach n k s)) \<le> length (targets s)
   \<and> maxTargets (targets_forEach n k s) = maxTargets s"
proof (induction n arbitrary: k s)
  case 0
  show ?case by simp
next
  case (Suc n)
  show ?case
    using Suc.IH [of "Suc k" "syncTarget (targets s ! k) k s"] Suc.IH [of "Suc k" s]
      syncTarget_cap [of "targets s ! k" k s]
    by auto
qed

lemma update_cap:
  assumes "length (targets s) \<le> maxTargets s"
  shows "length (targets (update inp s)) \<le> maxTargets (update inp s)
         \<and> maxTargets (update inp s) = maxTargets s"
proof (cases "assetsLoaded s")
  case False
  then show ?thesis using assms by (simp add: update_def)
next
  case True
  let ?s2 = "(physicsWorld_step (physics inp) s)
               \<lparr>timeSinceLastSpawn := timeSinceLastSpawn (physicsWorld_step (physics inp) s)
                                         + deltaTime inp\<rparr>"
  let ?s3 = "if timeSinceLastSpawn ?s2 > targetSpawnInterval ?s2
                \<and> length (targets ?s2) < maxTargets ?s2
             then (spawnTarget (spawnRnd inp) ?s2)
                    \<lparr>timeSinceLastSpawn := 0,
                     targetSpawnInterval := 4 / 5 + random_value (rInterval inp) * (7 / 10)\<rparr>
             else ?s2"
  have s3: "length (targets ?s3) \<le> maxTargets ?s3 \<and> maxTargets ?s3 = maxTargets s"
    using assms by (simp add: physicsWorld_step_def)
  have "update inp s = targets_forEach (length (targets ?s3)) 0 ?s3"
    using True by (simp add: update_def Let_def)
  then show ?thesis
    using targets_forEach_cap [of "length (targets ?s3)" 0 ?s3] s3 by simp
qed

lemma resolve_cap:
  "length (targets (resolve xs s)) \<le> length (targets s)
   \<and> length (targets s) \<le> Suc (length (targets (resolve xs s)))
   \<and> maxTargets (resolve xs s) = maxTargets s"
  by (auto simp: resolve_def Let_def console_warn_def length_splice1
      split: list.split option.split)

lemma shoot_cap:
  "length (targets (shoot picks s)) \<le> length (targets s)
   \<and> length (targets s) \<le> Suc (length (targets (shoot picks s)))
   \<and> maxTargets (shoot picks s) = maxTargets s"
  using resolve_cap by (simp add: shoot_def)

lemma handle_cap:
  assumes "length (targets s) \<le> maxTargets s"
  shows "length (targets (handle e s)) \<le> maxTargets (handle e s)
         \<and> maxTargets (handle e s) = maxTargets s"
proof (cases e)
  case OnLoad
  then show ?thesis using assms by (simp add: startGameLogic_def)
next
  case (AnimationFrame inp)
  then show ?thesis using update_cap [OF assms, of inp] by simp
next
  case (PointerDown picks)
  then show ?thesis using shoot_cap [of picks s] assms by simp
qed

lemma run_cap:
  "length (targets s) \<le> maxTargets s \<Longrightarrow>
   length (targets (run es s)) \<le> maxTargets (run es s) \<and> maxTargets (run es s) = maxTargets s"
proof (induction es arbitrary: s)
  case Nil
  then show ?case by simp
next
  case (Cons e es)
  from handle_cap [OF Cons.prems, of e] Cons.IH [of "handle e s"]
  show ?case by simp
qed

text \<open>
  Claim C6. Between the callbacks the number of tracked targets never exceeds \<open>maxTargets\<close>:
  every callback (a frame with its spawn and its pruning pass, a shot, the end of loading)
  keeps the bound, so does every sequence of callbacks, and from the module's initial state
  every state reached respects the bound, \<open>maxTargets\<close> staying 15.
\<close>

theorem tracked_targets_within_cap:
  "(length (targets s) \<le> maxTargets s \<longrightarrow>
      length (targets (handle e s)) \<le> maxTargets (handle e s)
      \<and> length (targets (run es s)) \<le> maxTargets (run es s))
   \<and> length (targets (run es initial)) \<le> maxTargets (run es initial)
   \<and> maxTargets (run es initial) = 15"
proof -
  have "length (targets initial) \<le> maxTargets initial" by (simp add: initial_def)
  from run_cap [OF this, of es] have "length (targets (run es initial)) \<le> maxTargets (run es initial)
    \<and> maxTargets (run es initial) = 15" by (simp add: initial_def)
  then show ?thesis using handle_cap [of s e] run_cap [of s es] by blast
qed

theorem tracked_targets_within_cap_witness:
  "length (targets two_targets) = 2 \<and> maxTargets two_targets = 15
   \<and> length (targets (handle (AnimationFrame frame_spawn) two_targets)) = 3
   \<and> length (targets (handle (AnimationFrame frame_spawn) two_targets))
        \<le> maxTargets (handle (AnimationFrame frame_spawn) two_targets)"
proof -
  have a: "length (targets two_targets) = 2 \<and> maxTargets two_targets = 15"
    by (simp add: two_targets_def evaluate)
  have b: "length (targets (handle (AnimationFrame frame_spawn) two_targets)) = 3"
    by (simp add: two_targets_def evaluate)
  from a have "length (targets two_targets) \<le> maxTargets two_targets" by simp
  with tracked_targets_within_cap [of two_targets "AnimationFrame frame_spawn" "[]"]
  have "length (targets (handle (AnimationFrame frame_spawn) two_targets))
          \<le> maxTargets (handle (AnimationFrame frame_spawn) two_targets)" by blast
  with a b show ?thesis by blast
qed

subsection \<open>One shot\<close>

lemma console_warn_fields [simp]:
  "warnings (console_warn m s) = warnings s @ [m]"
  "targets (console_warn m s) = targets s"
  "score (console_warn m s) = score s"
  "consecutiveHits (console_warn m s) = consecutiveHits s"
  "meshes (console_warn m s) = meshes s"
  by (simp_all add: console_warn_def)




lemma two_targets_loaded: "assetsLoaded two_targets"
  by (simp add: two_targets_def evaluate)


subsection \<open>Teardown\<close>

lemma distinct_map_same:
  assumes "distinct (map f xs)" and "k < length xs" and "y \<in> set xs" and "f (xs ! k) = f y"
  shows "xs ! k = y"
proof -
  have "inj_on f (set xs)" using assms(1) by (simp add: distinct_map)
  moreover have "xs ! k \<in> set xs" using assms(2) by simp
  ultimately show ?thesis using assms(3,4) by (auto dest: inj_onD)
qed

text \<open>
  Claim C8. After \<open>removeTarget\<close> has been called for a tracked target, with an index at
  which the array holds that target's id and the ids being unique (as at both call sites),
  the target is no longer tracked, its mesh is not in the scene, its body is not in the
  physics world, whatever geometry and material its mesh has were disposed, and a
  consistent state stays consistent: the scene holds exactly the meshes of the tracked
  targets and the world their bodies.
\<close>

theorem removeTarget_leaves_no_reference:
  assumes "k < length (targets s)" and "id (targets s ! k) = id td"
    and "td \<in> set (targets s)" and "distinct (map id (targets s))"
  shows "td \<notin> set (targets (removeTarget td k s))
     \<and> id td \<notin> id ` set (targets (removeTarget td k s))
     \<and> mesh td \<notin> scene (removeTarget td k s)
     \<and> body td \<notin> physicsWorld (removeTarget td k s)
     \<and> (\<forall>g. geometry (meshes s (mesh td)) = Some g
           \<longrightarrow> Geometry g \<in> set (disposed (removeTarget td k s)))
     \<and> (\<forall>g. material (meshes s (mesh td)) = Some g
           \<longrightarrow> Material g \<in> set (disposed (removeTarget td k s)))
     \<and> (consistent s \<longrightarrow> consistent (removeTarget td k s))"
proof -
  have same: "targets s ! k = td"
    using distinct_map_same [OF assms(4,1,3,2)] .
  have gone: "id td \<notin> id ` set (targets (removeTarget td k s))"
    using splice1_distinct_map(2) [OF assms(4,1)] same by simp
  then have "td \<notin> set (targets (removeTarget td k s))" by blast
  moreover have "consistent s \<longrightarrow> consistent (removeTarget td k s)"
    using removeTarget_consistent [OF _ assms(1)] same by simp
  ultimately show ?thesis using gone by (simp add: dispose_of_def)
qed

lemma two_targets_meshes:
  "geometry (meshes two_targets 1) = Some 1 \<and> material (meshes two_targets 1) = Some 1"
  by (simp add: two_targets_def evaluate)

theorem removeTarget_leaves_no_reference_witness:
  "targets (removeTarget \<lparr>mesh = 1, body = 1, type = targetTypes STANDARD, id = 1\<rparr> 1 two_targets)
     = [\<lparr>mesh = 0, body = 0, type = targetTypes STANDARD, id = 0\<rparr>]
   \<and> 1 \<notin> scene (removeTarget \<lparr>mesh = 1, body = 1, type = targetTypes STANDARD, id = 1\<rparr> 1 two_targets)
   \<and> 1 \<notin> physicsWorld (removeTarget \<lparr>mesh = 1, body = 1, type = targetTypes STANDARD, id = 1\<rparr> 1 two_targets)
   \<and> Geometry 1 \<in> set (disposed (removeTarget \<lparr>mesh = 1, body = 1, type = targetTypes STANDARD, id = 1\<rparr> 1 two_targets))
   \<and> Material 1 \<in> set (disposed (removeTarget \<lparr>mesh = 1, body = 1, type = targetTypes STANDARD, id = 1\<rparr> 1 two_targets))"
proof -
  let ?td = "\<lparr>mesh = 1, body = 1, type = targetTypes STANDARD, id = 1\<rparr>"
  have h: "1 < length (targets two_targets)" "id (targets two_targets ! 1) = id ?td"
    "?td \<in> set (targets two_targets)" "distinct (map id (targets two_targets))"
    by (simp_all add: two_targets_tracked)
  have t: "targets (removeTarget ?td 1 two_targets)
     = [\<lparr>mesh = 0, body = 0, type = targetTypes STANDARD, id = 0\<rparr>]"
    by (simp add: two_targets_tracked splice1_def)
  from removeTarget_leaves_no_reference [OF h] two_targets_meshes t
  show ?thesis by simp
qed

subsection \<open>Reachable states\<close>

lemma reachable_consistent: "consistent (run es initial)"
  using consistent_initial by (rule run_consistent)

text \<open>
  Claim C9. No target is torn down twice. Every call of \<open>removeTarget\<close> disposes of the
  geometry and the material of the target's mesh; in every state reached from the initial
  one, no resource has been disposed of twice, every tracked target still has its own
  geometry and material, neither of them disposed of, and the tracked ids are pairwise
  different. So a target retired by a shot is out of the array before the pruning pass can
  see it, and the other way round.
\<close>

theorem teardown_at_most_once:
  "distinct (disposed (run es initial))
   \<and> (\<forall>t \<in> set (targets (run es initial)).
         dispose_of (meshes (run es initial) (mesh t)) = [Geometry (mesh t), Material (mesh t)]
         \<and> Geometry (mesh t) \<notin> set (disposed (run es initial))
         \<and> Material (mesh t) \<notin> set (disposed (run es initial)))
   \<and> distinct (map id (targets (run es initial)))"
proof -
  let ?s = "run es initial"
  have c: "linked ?s" "torn_down_once ?s"
    using reachable_consistent [of es] by (simp_all add: consistent_def)
  have d: "distinct (disposed ?s)" using c(2) by (simp add: torn_down_once_def)
  have per: "dispose_of (meshes ?s (mesh t)) = [Geometry (mesh t), Material (mesh t)]
         \<and> Geometry (mesh t) \<notin> set (disposed ?s) \<and> Material (mesh t) \<notin> set (disposed ?s)"
    if t: "t \<in> set (targets ?s)" for t
  proof -
    have "dispose_of (meshes ?s (mesh t)) = [Geometry (mesh t), Material (mesh t)]"
      using c(1) t by (simp add: linked_def dispose_of_def)
    moreover have "\<forall>g \<in> set (disposed ?s). gpu_ref g \<noteq> mesh t"
      using c(2) t unfolding torn_down_once_def by (metis imageI)
    ultimately show ?thesis by fastforce
  qed
  have eq: "map id (targets ?s) = map mesh (targets ?s)"
    using c(1) unfolding linked_def by auto
  have "distinct (map mesh (targets ?s))"
    using c(1) unfolding linked_def by blast
  then have "distinct (map id (targets ?s))"
    unfolding eq .
  with d per show ?thesis by blast
qed

theorem teardown_at_most_once_witness:
  "disposed (run [OnLoad, AnimationFrame frame_spawn, AnimationFrame frame_spawn,
                  PointerDown [(0, origin)], AnimationFrame frame_fall] initial)
     = [Geometry 0, Material 0, Geometry 1, Material 1]
   \<and> distinct (disposed (run [OnLoad, AnimationFrame frame_spawn, AnimationFrame frame_spawn,
                  PointerDown [(0, origin)], AnimationFrame frame_fall] initial))"
proof -
  have "disposed (run [OnLoad, AnimationFrame frame_spawn, AnimationFrame frame_spawn,
                  PointerDown [(0, origin)], AnimationFrame frame_fall] initial)
     = [Geometry 0, Material 0, Geometry 1, Material 1]"
    by (simp add: evaluate shoot_def resolve_def intersectObjects_def findIndex_def
        processHit_def)
  with teardown_at_most_once
    [of "[OnLoad, AnimationFrame frame_spawn, AnimationFrame frame_spawn,
          PointerDown [(0, origin)], AnimationFrame frame_fall]"]
  show ?thesis by blast
qed

lemma set_splice1_distinct:
  assumes "distinct xs" and "k < length xs"
  shows "set (splice1 k xs) = set xs - {xs ! k}"
  using splice1_distinct_map(3) [of "\<lambda>x. x" xs k] assms by simp

lemma shoot_hit_owner:
  assumes "consistent s" and "assetsLoaded s"
    and "intersectObjects picks (map mesh (targets s)) = first # rest"
  shows "\<exists>t \<in> set (targets s).
           mesh t = object first
           \<and> userData_targetData (meshes s (object first)) = Some t
           \<and> findIndex (\<lambda>u. id u = id t) (targets s) > - 1
           \<and> nat (findIndex (\<lambda>u. id u = id t) (targets s)) < length (targets s)
           \<and> targets s ! nat (findIndex (\<lambda>u. id u = id t) (targets s)) = t
           \<and> shoot picks s
               = removeTarget t (nat (findIndex (\<lambda>u. id u = id t) (targets s)))
                   (processHit t (point first) s)"
proof -
  have l: "linked s" using assms(1) by (simp add: consistent_def)
  have "object first \<in> set (map mesh (targets s))"
    using intersectObjects_object [of first picks "map mesh (targets s)"] assms(3) by simp
  then obtain t where t: "t \<in> set (targets s)" "mesh t = object first" by auto
  have ud: "userData_targetData (meshes s (object first)) = Some t"
    using l t unfolding linked_def by auto
  let ?P = "\<lambda>u. id u = id t"
  let ?j = "nat (findIndex ?P (targets s))"
  have ex: "\<exists>x \<in> set (targets s). ?P x" using t(1) by auto
  have f: "findIndex ?P (targets s) > - 1" "?j < length (targets s)" "?P (targets s ! ?j)"
    using findIndex_found [OF ex] by simp_all
  have same: "targets s ! ?j = t"
    using linked_same_mesh [OF l t(1) _ f(3)] f(2) by simp
  have "shoot picks s = removeTarget t ?j (processHit t (point first) s)"
    using assms(2,3) ud f(1) by (simp add: shoot_def resolve_def Let_def)
  with t ud f(1,2) same show ?thesis by blast
qed

text \<open>
  Claim C10. In every state reached from the initial one, every tracked mesh carries the
  \<open>targetData\<close> it belongs to, whose id is the mesh's uuid, and no warning has been logged.
  Whenever the ray cast of \<open>shoot\<close>, which is over the tracked meshes only, returns an
  intersection, the nearest mesh is the mesh of a tracked target, its \<open>userData.targetData\<close>
  is that target, \<open>findIndex\<close> returns an index of the tracking array that holds that very
  target, and \<open>shoot\<close> is \<open>processHit\<close> followed by \<open>removeTarget\<close> of that target at that
  index: the owner and nothing else leaves the tracking array, its mesh leaves the scene, its
  body the physics world, its geometry and material are disposed of, and neither warning
  branch is taken.
\<close>

theorem shoot_finds_owner:
  "warnings (run es initial) = []
   \<and> (\<forall>t \<in> set (targets (run es initial)).
         userData_targetData (meshes (run es initial) (mesh t)) = Some t
         \<and> id t = uuid (meshes (run es initial) (mesh t)))
   \<and> (\<forall>first rest.
         assetsLoaded (run es initial)
         \<longrightarrow> intersectObjects picks (map mesh (targets (run es initial))) = first # rest
         \<longrightarrow> (\<exists>t \<in> set (targets (run es initial)).
                mesh t = object first
                \<and> userData_targetData (meshes (run es initial) (object first)) = Some t
                \<and> findIndex (\<lambda>u. id u = id t) (targets (run es initial)) > - 1
                \<and> nat (findIndex (\<lambda>u. id u = id t) (targets (run es initial)))
                     < length (targets (run es initial))
                \<and> targets (run es initial)
                     ! nat (findIndex (\<lambda>u. id u = id t) (targets (run es initial))) = t
                \<and> shoot picks (run es initial)
                     = removeTarget t
                         (nat (findIndex (\<lambda>u. id u = id t) (targets (run es initial))))
                         (processHit t (point first) (run es initial))
                \<and> set (targets (shoot picks (run es initial)))
                     = set (targets (run es initial)) - {t}
                \<and> scene (shoot picks (run es initial)) = scene (run es initial) - {mesh t}
                \<and> physicsWorld (shoot picks (run es initial))
                     = physicsWorld (run es initial) - {body t}
                \<and> disposed (shoot picks (run es initial))
                     = disposed (run es initial) @ [Geometry (mesh t), Material (mesh t)])
             \<and> Suc (length (targets (shoot picks (run es initial))))
                 = length (targets (run es initial))
             \<and> warnings (shoot picks (run es initial)) = [])"
proof -
  let ?s = "run es initial"
  have c: "consistent ?s" by (rule reachable_consistent)
  then have l: "linked ?s" by (simp add: consistent_def)
  have d: "distinct (targets ?s)"
    using l unfolding linked_def by (auto simp: distinct_map)
  have w: "warnings ?s = []"
    using run_warnings [OF consistent_initial, of es] by (simp add: initial_def)
  have link: "\<forall>t \<in> set (targets ?s).
         userData_targetData (meshes ?s (mesh t)) = Some t \<and> id t = uuid (meshes ?s (mesh t))"
    using l unfolding linked_def by auto
  have hit: "(\<exists>t \<in> set (targets ?s).
                mesh t = object first
                \<and> userData_targetData (meshes ?s (object first)) = Some t
                \<and> findIndex (\<lambda>u. id u = id t) (targets ?s) > - 1
                \<and> nat (findIndex (\<lambda>u. id u = id t) (targets ?s)) < length (targets ?s)
                \<and> targets ?s ! nat (findIndex (\<lambda>u. id u = id t) (targets ?s)) = t
                \<and> shoot picks ?s
                     = removeTarget t (nat (findIndex (\<lambda>u. id u = id t) (targets ?s)))
                         (processHit t (point first) ?s)
                \<and> set (targets (shoot picks ?s)) = set (targets ?s) - {t}
                \<and> scene (shoot picks ?s) = scene ?s - {mesh t}
                \<and> physicsWorld (shoot picks ?s) = physicsWorld ?s - {body t}
                \<and> disposed (shoot picks ?s)
                     = disposed ?s @ [Geometry (mesh t), Material (mesh t)])
             \<and> Suc (length (targets (shoot picks ?s))) = length (targets ?s)
             \<and> warnings (shoot picks ?s) = []"
    if a: "assetsLoaded ?s" and i: "intersectObjects picks (map mesh (targets ?s)) = first # rest"
    for first rest
  proof -
    from shoot_hit_owner [OF c a i] obtain t where t: "t \<in> set (targets ?s)"
      "mesh t = object first"
      "userData_targetData (meshes ?s (object first)) = Some t"
      "findIndex (\<lambda>u. id u = id t) (targets ?s) > - 1"
      "nat (findIndex (\<lambda>u. id u = id t) (targets ?s)) < length (targets ?s)"
      "targets ?s ! nat (findIndex (\<lambda>u. id u = id t) (targets ?s)) = t"
      "shoot picks ?s = removeTarget t (nat (findIndex (\<lambda>u. id u = id t) (targets ?s)))
                         (processHit t (point first) ?s)"
      by blast
    let ?j = "nat (findIndex (\<lambda>u. id u = id t) (targets ?s))"
    have st: "set (targets (shoot picks ?s)) = set (targets ?s) - {t}"
      using set_splice1_distinct [OF d t(5)] t(6,7) by simp
    have disp: "dispose_of (meshes ?s (mesh t)) = [Geometry (mesh t), Material (mesh t)]"
      using l t(1) by (simp add: linked_def dispose_of_def)
    have eff: "scene (shoot picks ?s) = scene ?s - {mesh t}"
      "physicsWorld (shoot picks ?s) = physicsWorld ?s - {body t}"
      "disposed (shoot picks ?s) = disposed ?s @ [Geometry (mesh t), Material (mesh t)]"
      using t(7) disp by simp_all
    have len: "Suc (length (targets (shoot picks ?s))) = length (targets ?s)"
      using t(5,7) by (simp add: length_splice1)
    have "warnings (shoot picks ?s) = []"
      using shoot_warnings [OF c, of picks] w by simp
    with t st eff len show ?thesis by blast
  qed
  show ?thesis using w link hit by blast
qed

theorem shoot_finds_owner_witness:
  "assetsLoaded two_targets
   \<and> intersectObjects [(1, origin)] (map mesh (targets two_targets))
       = [\<lparr>object = 1, point = origin\<rparr>]
   \<and> findIndex (\<lambda>u. id u = 1) (targets two_targets) = 1
   \<and> targets (shoot [(1, origin)] two_targets)
       = [\<lparr>mesh = 0, body = 0, type = targetTypes STANDARD, id = 0\<rparr>]
   \<and> scene (shoot [(1, origin)] two_targets) = {0}
   \<and> disposed (shoot [(1, origin)] two_targets) = [Geometry 1, Material 1]
   \<and> Suc (length (targets (shoot [(1, origin)] two_targets))) = length (targets two_targets)
   \<and> warnings (shoot [(1, origin)] two_targets) = []"
proof -
  have i: "intersectObjects [(1, origin)] (map mesh (targets two_targets))
       = [\<lparr>object = 1, point = origin\<rparr>]"
    by (simp add: two_targets_tracked intersectObjects_def)
  have f: "findIndex (\<lambda>u. id u = 1) (targets two_targets) = 1"
    by (simp add: two_targets_tracked findIndex_def)
  have e: "targets (shoot [(1, origin)] two_targets)
       = [\<lparr>mesh = 0, body = 0, type = targetTypes STANDARD, id = 0\<rparr>]
     \<and> scene (shoot [(1, origin)] two_targets) = {0}
     \<and> disposed (shoot [(1, origin)] two_targets) = [Geometry 1, Material 1]"
    by (simp add: two_targets_def evaluate shoot_def resolve_def intersectObjects_def
        findIndex_def processHit_def insert_Diff_if)
  from shoot_finds_owner
    [of "[OnLoad, AnimationFrame frame_spawn, AnimationFrame frame_spawn]" "[(1, origin)]"]
    two_targets_loaded i
  have "Suc (length (targets (shoot [(1, origin)] two_targets))) = length (targets two_targets)
    \<and> warnings (shoot [(1, origin)] two_targets) = []"
    unfolding two_targets_def by blast
  with two_targets_loaded i f e show ?thesis by blast
qed

end
